theory Spec2Isabelle
  imports Complex_Main
begin

section \<open>Nonlinear solvers: Newton-Raphson, bisection and their composition\<close>

text \<open>
  A shallow embedding of \<^verbatim>\<open>src/nonlinear_solvers/solvers.py\<close>.

  Numbers are modelled as \<^typ>\<open>real\<close>: the embedding follows the control flow and the
  exact arithmetic of the three solvers; rounding and overflow of binary floating point are
  outside it, except for the bisection of the last section of definitions, which is embedded
  a second time over binary64 values with overflow to infinity. The iteration budget is a
  Python integer, hence an \<^typ>\<open>int\<close>; \<^verbatim>\<open>range(max_its)\<close> runs \<open>nat max_its\<close> times (not
  at all for a budget below one).
\<close>

subsection \<open>Exceptions\<close>

text \<open>
  \<^item> \<open>ConvergenceError msg\<close> is the module's own exception class with its message;
  \<^item> \<open>ValueError x_0 x_1\<close> is the built-in raised by the sign test of \<^verbatim>\<open>bisection\<close>;
    its arguments are the text \<^verbatim>\<open>starting points {x_0} and {x_1}\<close> and
    \<^verbatim>\<open>have the same sign on f.\<close>, kept here as the two endpoints that the text names;
  \<^item> \<open>ZeroDivisionError\<close> is what Python's \<^verbatim>\<open>/\<close> raises on a zero divisor;
  \<^item> \<open>OtherError name\<close> is any other exception class, which only a caller-supplied
    function can raise.
\<close>

datatype exn =
    ConvergenceError string
  | ValueError real real
  | ZeroDivisionError
  | OtherError string

subsection \<open>Function handles and the log of their evaluations\<close>

text \<open>
  A handle is a callable of one number that returns a number or raises. Every evaluation
  of \<^verbatim>\<open>f\<close> or \<^verbatim>\<open>df\<close> is recorded, in order, in a log that is threaded through
  the computation, so that what a solver evaluates, and how often, can be stated.
\<close>

type_synonym fn = "real \<Rightarrow> exn + real"

datatype event = Eval_f real | Eval_df real

type_synonym log = "event list"

type_synonym 'a comp = "log \<Rightarrow> (exn + 'a) \<times> log"

definition pure_fn :: "(real \<Rightarrow> real) \<Rightarrow> fn" where
  "pure_fn g x = Inr (g x)"

definition ret :: "'a \<Rightarrow> 'a comp" where
  "ret v lg = (Inr v, lg)"

definition throw :: "exn \<Rightarrow> 'a comp" where
  "throw e lg = (Inl e, lg)"

definition bnd :: "'a comp \<Rightarrow> ('a \<Rightarrow> 'b comp) \<Rightarrow> 'b comp" where
  "bnd m k lg = (case m lg of (Inl e, lg') \<Rightarrow> (Inl e, lg') | (Inr v, lg') \<Rightarrow> k v lg')"

definition call_f :: "fn \<Rightarrow> real \<Rightarrow> real comp" where
  "call_f f x lg = (f x, lg @ [Eval_f x])"

definition call_df :: "fn \<Rightarrow> real \<Rightarrow> real comp" where
  "call_df df x lg = (df x, lg @ [Eval_df x])"

text \<open>Python's true division of two numbers.\<close>

definition py_truediv :: "real \<Rightarrow> real \<Rightarrow> real comp" where
  "py_truediv a b = (if b = 0 then throw ZeroDivisionError else ret (a / b))"

text \<open>
  \<^verbatim>\<open>try: ... except ConvergenceError: ...\<close>: the handler runs only for a
  \<open>ConvergenceError\<close>; a value and every other exception pass through.
\<close>

definition try_except_ConvergenceError :: "'a comp \<Rightarrow> 'a comp \<Rightarrow> 'a comp" where
  "try_except_ConvergenceError m h lg =
     (case m lg of
        (Inr v, lg') \<Rightarrow> (Inr v, lg')
      | (Inl e, lg') \<Rightarrow>
          (case e of ConvergenceError msg \<Rightarrow> h lg' | _ \<Rightarrow> (Inl e, lg')))"

subsection \<open>Formatting the iteration budget\<close>

text \<open>The decimal text of an integer, as \<^verbatim>\<open>f"{max_its}"\<close> produces it.\<close>

definition digit_char :: "nat \<Rightarrow> char" where
  "digit_char d = ''0123456789'' ! d"

fun str_nat :: "nat \<Rightarrow> string" where
  "str_nat n = (if n < 10 then [digit_char n] else str_nat (n div 10) @ [digit_char (n mod 10)])"

definition str_int :: "int \<Rightarrow> string" where
  "str_int i = (if i < 0 then CHR ''-'' # str_nat (nat (- i)) else str_nat (nat i))"

definition newton_message :: "int \<Rightarrow> string" where
  "newton_message max_its =
     ''Newton-Raphson failed to converge after'' @ str_int max_its @ '' attempts.''"

definition bisection_message :: "int \<Rightarrow> string" where
  "bisection_message max_its =
     ''bisection failed to converge after'' @ str_int max_its @ '' attempts.''"

subsection \<open>The solvers\<close>

text \<open>What one pass through a loop body does next: leave the function with a value, or go on.\<close>

datatype 'a ctl = Return real | Next 'a

text \<open>
  One pass of the loop of \<^verbatim>\<open>newton_raphson\<close>:
  \<^verbatim>\<open>x_0 -= f(x_0) / df(x_0)\<close>, then \<^verbatim>\<open>if abs(f(x_0)) < eps: return x_0\<close>.
\<close>

definition newton_body :: "fn \<Rightarrow> fn \<Rightarrow> real \<Rightarrow> real \<Rightarrow> real ctl comp" where
  "newton_body f df eps x_0 =
     bnd (call_f f x_0) (\<lambda>a.
     bnd (call_df df x_0) (\<lambda>b.
     bnd (py_truediv a b) (\<lambda>q.
     bnd (call_f f (x_0 - q)) (\<lambda>c.
     ret (if \<bar>c\<bar> < eps then Return (x_0 - q) else Next (x_0 - q))))))"

text \<open>\<^verbatim>\<open>for _ in range(n)\<close>; \<open>None\<close> when the loop runs to its end.\<close>

fun newton_loop :: "fn \<Rightarrow> fn \<Rightarrow> real \<Rightarrow> nat \<Rightarrow> real \<Rightarrow> real option comp" where
  "newton_loop f df eps 0 x_0 = ret None"
| "newton_loop f df eps (Suc n) x_0 =
     bnd (newton_body f df eps x_0) (\<lambda>c.
       case c of Return r \<Rightarrow> ret (Some r) | Next x' \<Rightarrow> newton_loop f df eps n x')"

definition newton_raphson :: "fn \<Rightarrow> fn \<Rightarrow> real \<Rightarrow> real \<Rightarrow> int \<Rightarrow> real comp" where
  "newton_raphson f df x_0 eps max_its =
     bnd (newton_loop f df eps (nat max_its) x_0) (\<lambda>r.
       case r of
         Some x \<Rightarrow> ret x
       | None \<Rightarrow> throw (ConvergenceError (newton_message max_its)))"

text \<open>
  One pass of the loop of \<^verbatim>\<open>bisection\<close>. The \<^verbatim>\<open>elif\<close> evaluates
  \<^verbatim>\<open>f(x_2)\<close> a second time, and then \<^verbatim>\<open>f(x_0)\<close>.
\<close>

definition bisection_body :: "fn \<Rightarrow> real \<Rightarrow> real \<times> real \<Rightarrow> (real \<times> real) ctl comp" where
  "bisection_body f eps br =
     (case br of (x_0, x_1) \<Rightarrow>
        let x_2 = (x_0 + x_1) / 2 in
        bnd (call_f f x_2) (\<lambda>a.
          if \<bar>a\<bar> < eps then ret (Return x_2)
          else
            bnd (call_f f x_2) (\<lambda>b.
            bnd (call_f f x_0) (\<lambda>c.
              if (b < 0) = (c < 0) then ret (Next (x_2, x_1)) else ret (Next (x_0, x_2))))))"

fun bisection_loop :: "fn \<Rightarrow> real \<Rightarrow> nat \<Rightarrow> real \<times> real \<Rightarrow> real option comp" where
  "bisection_loop f eps 0 br = ret None"
| "bisection_loop f eps (Suc n) br =
     bnd (bisection_body f eps br) (\<lambda>c.
       case c of Return r \<Rightarrow> ret (Some r) | Next br' \<Rightarrow> bisection_loop f eps n br')"

definition bisection :: "fn \<Rightarrow> real \<Rightarrow> real \<Rightarrow> real \<Rightarrow> int \<Rightarrow> real comp" where
  "bisection f x_0 x_1 eps max_its =
     bnd (call_f f x_0) (\<lambda>a.
     bnd (call_f f x_1) (\<lambda>b.
       if (a < 0) = (b < 0) then throw (ValueError x_0 x_1)
       else
         bnd (bisection_loop f eps (nat max_its) (x_0, x_1)) (\<lambda>r.
           case r of
             Some x \<Rightarrow> ret x
           | None \<Rightarrow> throw (ConvergenceError (bisection_message max_its)))))"

definition solve :: "fn \<Rightarrow> fn \<Rightarrow> real \<Rightarrow> real \<Rightarrow> real \<Rightarrow> int \<Rightarrow> int \<Rightarrow> real comp" where
  "solve f df x_0 x_1 eps max_its_n max_its_b =
     try_except_ConvergenceError
       (newton_raphson f df x_0 eps max_its_n)
       (bisection f x_0 x_1 eps max_its_b)"

section \<open>Notions used to state the properties\<close>

subsection \<open>The Newton sequence of the specification\<close>

text \<open>
  The specification describes \<^verbatim>\<open>newton_raphson\<close> by the sequence
  \<open>x \<leftarrow> x - f(x)/df(x)\<close> that starts at \<open>x_0\<close>. The following definitions follow these
  words, not the code: \<open>spec_update\<close> is one update, defined when \<open>f\<close> and \<open>df\<close> return
  numbers and the divisor is not zero; \<open>spec_iterate f df x_0 k\<close> is the \<open>k\<close>-th member of the
  sequence, when all updates up to it are defined.
\<close>

definition spec_update :: "fn \<Rightarrow> fn \<Rightarrow> real \<Rightarrow> real option" where
  "spec_update f df x =
     (case f x of
        Inl _ \<Rightarrow> None
      | Inr a \<Rightarrow>
          (case df x of
             Inl _ \<Rightarrow> None
           | Inr b \<Rightarrow> if b = 0 then None else Some (x - a / b)))"

fun spec_iterate :: "fn \<Rightarrow> fn \<Rightarrow> real \<Rightarrow> nat \<Rightarrow> real option" where
  "spec_iterate f df x_0 0 = Some x_0"
| "spec_iterate f df x_0 (Suc k) =
     (case spec_iterate f df x_0 k of None \<Rightarrow> None | Some x \<Rightarrow> spec_update f df x)"

text \<open>
  The convergence predicate \<open>abs(f(x)) < eps\<close> at a member of the sequence: \<open>meets_tol\<close> when
  the member exists, \<open>f\<close> returns a number there and the number is within the tolerance;
  \<open>misses_tol\<close> when the member exists, \<open>f\<close> returns a number there and the number is not
  within the tolerance.
\<close>

definition meets_tol :: "fn \<Rightarrow> real \<Rightarrow> real option \<Rightarrow> bool" where
  "meets_tol f eps xo =
     (case xo of
        None \<Rightarrow> False
      | Some x \<Rightarrow> (case f x of Inl _ \<Rightarrow> False | Inr v \<Rightarrow> \<bar>v\<bar> < eps))"

definition misses_tol :: "fn \<Rightarrow> real \<Rightarrow> real option \<Rightarrow> bool" where
  "misses_tol f eps xo =
     (case xo of
        None \<Rightarrow> False
      | Some x \<Rightarrow> (case f x of Inl _ \<Rightarrow> False | Inr v \<Rightarrow> \<not> \<bar>v\<bar> < eps))"

subsection \<open>Brackets of the bisection\<close>

text \<open>
  \<open>opposite f (a, b)\<close>: \<open>f\<close> returns a number at both endpoints, and the two numbers fall
  into different classes of the sign test \<open>v < 0\<close> (one is negative, the other is zero or
  positive).
\<close>

definition opposite :: "fn \<Rightarrow> real \<times> real \<Rightarrow> bool" where
  "opposite f br =
     (case br of (x_0, x_1) \<Rightarrow>
        (case f x_0 of
           Inl _ \<Rightarrow> False
         | Inr a \<Rightarrow> (case f x_1 of Inl _ \<Rightarrow> False | Inr b \<Rightarrow> (a < 0) \<noteq> (b < 0))))"

text \<open>
  The bracket at the start of iteration \<open>k\<close> (counted from zero) of the loop of
  \<^verbatim>\<open>bisection\<close>, obtained by running the loop body \<open>k\<close> times; \<open>None\<close> when the loop
  has left before.
\<close>

fun bisection_at :: "fn \<Rightarrow> real \<Rightarrow> nat \<Rightarrow> real \<times> real \<Rightarrow> (real \<times> real) option" where
  "bisection_at f eps 0 br = Some br"
| "bisection_at f eps (Suc k) br =
     (case fst (bisection_body f eps br []) of
        Inr (Next br') \<Rightarrow> bisection_at f eps k br'
      | _ \<Rightarrow> None)"

text \<open>
  The specification describes the loop of \<^verbatim>\<open>bisection\<close> for a function \<open>g\<close> by its
  brackets: the midpoint replaces \<open>x_0\<close> when \<open>g\<close> at the midpoint is in the sign class of
  \<open>g x_0\<close>, and \<open>x_1\<close> otherwise. The following definitions follow these words, not the
  code: \<open>spec_bracket g br k\<close> is the bracket after \<open>k\<close> replacements, \<open>spec_midpoint g br k\<close>
  its midpoint, the candidate that iteration \<open>k\<close> (counted from zero) tests.
\<close>

fun spec_bracket :: "(real \<Rightarrow> real) \<Rightarrow> real \<times> real \<Rightarrow> nat \<Rightarrow> real \<times> real" where
  "spec_bracket g br 0 = br"
| "spec_bracket g br (Suc k) =
     (case spec_bracket g br k of (x_0, x_1) \<Rightarrow>
        if (g ((x_0 + x_1) / 2) < 0) = (g x_0 < 0) then ((x_0 + x_1) / 2, x_1)
        else (x_0, (x_0 + x_1) / 2))"

definition spec_midpoint :: "(real \<Rightarrow> real) \<Rightarrow> real \<times> real \<Rightarrow> nat \<Rightarrow> real" where
  "spec_midpoint g br k = (case spec_bracket g br k of (x_0, x_1) \<Rightarrow> (x_0 + x_1) / 2)"

subsection \<open>The log of a computation\<close>

text \<open>
  \<open>appends m\<close>: the computation only appends to the log, and neither its result nor what it
  appends depends on the log it starts from. \<open>costs m c\<close>: it appends at most \<open>c\<close>
  evaluations.
\<close>

definition appends :: "'a comp \<Rightarrow> bool" where
  "appends m \<longleftrightarrow> (\<forall>lg. m lg = (fst (m []), lg @ snd (m [])))"

definition costs :: "'a comp \<Rightarrow> nat \<Rightarrow> bool" where
  "costs m c \<longleftrightarrow> (\<forall>lg. length (snd (m lg)) \<le> length lg + c)"

subsection \<open>Handles for the concrete runs\<close>

text \<open>
  The functions of the concrete runs below: \<open>x - 2\<close> (the example of the specification), the
  constants one and zero, \<open>x\<^sup>2 - 2\<close> with its derivative \<open>2 x\<close>, and \<open>2 - x\<close>, which is
  zero at \<open>2\<close>.
\<close>

definition ex_line :: "real \<Rightarrow> real" where "ex_line x = x - 2"
definition ex_one :: "real \<Rightarrow> real" where "ex_one x = 1"
definition ex_zero :: "real \<Rightarrow> real" where "ex_zero x = 0"
definition ex_square :: "real \<Rightarrow> real" where "ex_square x = x * x - 2"
definition ex_two_x :: "real \<Rightarrow> real" where "ex_two_x x = 2 * x"
definition ex_two_minus :: "real \<Rightarrow> real" where "ex_two_minus x = 2 - x"

section \<open>The bisection over binary64 values with overflow\<close>

text \<open>
  The midpoint \<^verbatim>\<open>(x_0 + x_1) / 2\<close> of \<^verbatim>\<open>bisection\<close> is computed in binary64,
  where the sum of two large endpoints overflows. To state what the code returns there,
  \<^verbatim>\<open>bisection\<close> is embedded a second time over the values of binary64: the finite values
  (as reals), the two infinities and not-a-number. A result whose magnitude reaches
  \<^verbatim>\<open>2**1024 - 2**970\<close> (the largest finite value plus half a unit in its last place) becomes
  an infinity, as rounding to nearest does. Rounding of the results below that bound is not
  modelled: a run is exact when each of its intermediate values is representable.
\<close>

datatype fl = Finite real | PInf | NInf | NaN

definition overflow_threshold :: real where
  "overflow_threshold = 2 ^ 1024 - 2 ^ 970"

definition fl_result :: "real \<Rightarrow> fl" where
  "fl_result r =
     (if overflow_threshold \<le> r then PInf
      else if r \<le> - overflow_threshold then NInf
      else Finite r)"

text \<open>
  Addition, division by two, \<^verbatim>\<open>abs\<close> and \<^verbatim>\<open><\<close> on these values. Every comparison
  with not-a-number is false.
\<close>

fun fl_add :: "fl \<Rightarrow> fl \<Rightarrow> fl" where
  "fl_add (Finite a) (Finite b) = fl_result (a + b)"
| "fl_add (Finite a) PInf = PInf"
| "fl_add (Finite a) NInf = NInf"
| "fl_add (Finite a) NaN = NaN"
| "fl_add PInf (Finite b) = PInf"
| "fl_add PInf PInf = PInf"
| "fl_add PInf NInf = NaN"
| "fl_add PInf NaN = NaN"
| "fl_add NInf (Finite b) = NInf"
| "fl_add NInf PInf = NaN"
| "fl_add NInf NInf = NInf"
| "fl_add NInf NaN = NaN"
| "fl_add NaN y = NaN"

fun fl_halve :: "fl \<Rightarrow> fl" where
  "fl_halve (Finite a) = Finite (a / 2)"
| "fl_halve PInf = PInf"
| "fl_halve NInf = NInf"
| "fl_halve NaN = NaN"

fun fl_abs :: "fl \<Rightarrow> fl" where
  "fl_abs (Finite a) = Finite \<bar>a\<bar>"
| "fl_abs PInf = PInf"
| "fl_abs NInf = PInf"
| "fl_abs NaN = NaN"

fun fl_less :: "fl \<Rightarrow> fl \<Rightarrow> bool" where
  "fl_less (Finite a) (Finite b) = (a < b)"
| "fl_less (Finite a) PInf = True"
| "fl_less (Finite a) NInf = False"
| "fl_less (Finite a) NaN = False"
| "fl_less PInf y = False"
| "fl_less NInf (Finite b) = True"
| "fl_less NInf PInf = True"
| "fl_less NInf NInf = False"
| "fl_less NInf NaN = False"
| "fl_less NaN y = False"

text \<open>
  The exceptions, handles and loop control over these values, and \<^verbatim>\<open>bisection\<close> as in
  the source, line by line; the evaluations are not logged here.
\<close>

datatype fl_exn =
    Fl_ConvergenceError string
  | Fl_ValueError fl fl
  | Fl_OtherError string

type_synonym fl_fn = "fl \<Rightarrow> fl_exn + fl"

datatype fl_ctl = Fl_Return fl | Fl_Next "fl \<times> fl"

definition fl_bisection_body :: "fl_fn \<Rightarrow> fl \<Rightarrow> fl \<times> fl \<Rightarrow> fl_exn + fl_ctl" where
  "fl_bisection_body f eps br =
     (case br of (x_0, x_1) \<Rightarrow>
        let x_2 = fl_halve (fl_add x_0 x_1) in
        (case f x_2 of
           Inl e \<Rightarrow> Inl e
         | Inr a \<Rightarrow>
             if fl_less (fl_abs a) eps then Inr (Fl_Return x_2)
             else
               (case f x_2 of
                  Inl e \<Rightarrow> Inl e
                | Inr b \<Rightarrow>
                    (case f x_0 of
                       Inl e \<Rightarrow> Inl e
                     | Inr c \<Rightarrow>
                         if fl_less b (Finite 0) = fl_less c (Finite 0)
                         then Inr (Fl_Next (x_2, x_1))
                         else Inr (Fl_Next (x_0, x_2))))))"

fun fl_bisection_loop :: "fl_fn \<Rightarrow> fl \<Rightarrow> nat \<Rightarrow> fl \<times> fl \<Rightarrow> fl_exn + fl option" where
  "fl_bisection_loop f eps 0 br = Inr None"
| "fl_bisection_loop f eps (Suc n) br =
     (case fl_bisection_body f eps br of
        Inl e \<Rightarrow> Inl e
      | Inr (Fl_Return r) \<Rightarrow> Inr (Some r)
      | Inr (Fl_Next br') \<Rightarrow> fl_bisection_loop f eps n br')"

definition fl_bisection :: "fl_fn \<Rightarrow> fl \<Rightarrow> fl \<Rightarrow> fl \<Rightarrow> int \<Rightarrow> fl_exn + fl" where
  "fl_bisection f x_0 x_1 eps max_its =
     (case f x_0 of
        Inl e \<Rightarrow> Inl e
      | Inr a \<Rightarrow>
          (case f x_1 of
             Inl e \<Rightarrow> Inl e
           | Inr b \<Rightarrow>
               if fl_less a (Finite 0) = fl_less b (Finite 0) then Inl (Fl_ValueError x_0 x_1)
               else
                 (case fl_bisection_loop f eps (nat max_its) (x_0, x_1) of
                    Inl e \<Rightarrow> Inl e
                  | Inr (Some x) \<Rightarrow> Inr x
                  | Inr None \<Rightarrow> Inl (Fl_ConvergenceError (bisection_message max_its)))))"

text \<open>
  Handles for the concrete runs: a function on the reals applied to finite values, and the
  step function that is \<open>-1\<close> above \<^verbatim>\<open>1.25 * 2**1023\<close> and \<open>1\<close> elsewhere
  (\<^verbatim>\<open>lambda x: -1.0 if x > 1.25 * 2.0**1023 else 1.0\<close>).
\<close>

definition fl_fn_of :: "(real \<Rightarrow> real) \<Rightarrow> fl_fn" where
  "fl_fn_of g x = (case x of Finite a \<Rightarrow> Inr (fl_result (g a)) | _ \<Rightarrow> Inr NaN)"

definition ex_step :: fl_fn where
  "ex_step x = Inr (if fl_less (Finite (5 * 2 ^ 1021)) x then Finite (- 1) else Finite 1)"

section \<open>Auxiliary lemmas\<close>

subsection \<open>Every solver only appends to the log\<close>

lemma appendsD: "appends m \<Longrightarrow> m lg = (fst (m []), lg @ snd (m []))"
  unfolding appends_def by blast

lemma appends_ret: "appends (ret v)"
  by (simp add: appends_def ret_def)

lemma appends_throw: "appends (throw e)"
  by (simp add: appends_def throw_def)

lemma appends_call_f: "appends (call_f f x)"
  by (simp add: appends_def call_f_def)

lemma appends_call_df: "appends (call_df df x)"
  by (simp add: appends_def call_df_def)

lemma appends_py_truediv: "appends (py_truediv a b)"
  by (simp add: py_truediv_def appends_ret appends_throw)

lemma appends_bnd:
  assumes m: "appends m" and k: "\<And>v. appends (k v)"
  shows "appends (bnd m k)"
proof (unfold appends_def, rule allI)
  fix lg
  obtain r evs where r: "m [] = (r, evs)" by (cases "m []")
  have mlg: "m lg = (r, lg @ evs)" using appendsD [OF m, of lg] r by simp
  show "bnd m k lg = (fst (bnd m k []), lg @ snd (bnd m k []))"
  proof (cases r)
    case (Inl e)
    then show ?thesis using r mlg by (simp add: bnd_def)
  next
    case (Inr v)
    have "k v (lg @ evs) = (fst (k v []), (lg @ evs) @ snd (k v []))"
      by (rule appendsD [OF k])
    moreover have "k v evs = (fst (k v []), evs @ snd (k v []))"
      by (rule appendsD [OF k])
    ultimately show ?thesis using Inr r mlg by (simp add: bnd_def)
  qed
qed

lemma appends_if: "appends m \<Longrightarrow> appends m' \<Longrightarrow> appends (if c then m else m')"
  by simp

lemma appends_newton_body: "appends (newton_body f df eps x)"
  unfolding newton_body_def
  by (intro appends_bnd appends_call_f appends_call_df appends_py_truediv appends_ret)

lemma appends_newton_loop: "appends (newton_loop f df eps n x)"
proof (induction n arbitrary: x)
  case 0
  show ?case by (simp add: appends_ret)
next
  case (Suc n)
  show ?case
    unfolding newton_loop.simps
  proof (rule appends_bnd [OF appends_newton_body])
    fix c :: "real ctl"
    show "appends (case c of Return r \<Rightarrow> ret (Some r) | Next x' \<Rightarrow> newton_loop f df eps n x')"
      by (cases c) (simp_all add: appends_ret Suc.IH)
  qed
qed

lemma appends_finish:
  "appends (case r of Some x \<Rightarrow> ret x | None \<Rightarrow> throw e)"
  by (cases r) (simp_all add: appends_ret appends_throw)

lemma appends_newton_raphson: "appends (newton_raphson f df x_0 eps max_its)"
  unfolding newton_raphson_def
  by (intro appends_bnd appends_newton_loop appends_finish)

lemma appends_bisection_body: "appends (bisection_body f eps br)"
proof (cases br)
  case (Pair x_0 x_1)
  show ?thesis
    unfolding bisection_body_def Pair prod.case Let_def
    by (intro appends_bnd appends_if appends_call_f appends_ret)
qed

lemma appends_bisection_loop: "appends (bisection_loop f eps n br)"
proof (induction n arbitrary: br)
  case 0
  show ?case by (simp add: appends_ret)
next
  case (Suc n)
  show ?case
    unfolding bisection_loop.simps
  proof (rule appends_bnd [OF appends_bisection_body])
    fix c :: "(real \<times> real) ctl"
    show "appends (case c of Return r \<Rightarrow> ret (Some r) | Next br' \<Rightarrow> bisection_loop f eps n br')"
      by (cases c) (simp_all add: appends_ret Suc.IH)
  qed
qed

lemma appends_bisection: "appends (bisection f x_0 x_1 eps max_its)"
  unfolding bisection_def
  by (intro appends_bnd appends_if appends_call_f appends_throw appends_bisection_loop appends_finish)

lemma appends_try_except:
  assumes m: "appends m" and h: "appends h"
  shows "appends (try_except_ConvergenceError m h)"
proof (unfold appends_def, rule allI)
  fix lg
  obtain r evs where r: "m [] = (r, evs)" by (cases "m []")
  have mlg: "m lg = (r, lg @ evs)" using appendsD [OF m, of lg] r by simp
  have h1: "h (lg @ evs) = (fst (h []), (lg @ evs) @ snd (h []))" by (rule appendsD [OF h])
  have h2: "h evs = (fst (h []), evs @ snd (h []))" by (rule appendsD [OF h])
  show "try_except_ConvergenceError m h lg =
        (fst (try_except_ConvergenceError m h []), lg @ snd (try_except_ConvergenceError m h []))"
    using r mlg h1 h2
    by (simp add: try_except_ConvergenceError_def split: sum.splits exn.splits)
qed

lemma appends_solve: "appends (solve f df x_0 x_1 eps max_its_n max_its_b)"
  unfolding solve_def
  by (intro appends_try_except appends_newton_raphson appends_bisection)

subsection \<open>The loop bodies, written out\<close>

lemma newton_body_unfold:
  "newton_body f df eps x lg =
     (case f x of
        Inl e \<Rightarrow> (Inl e, lg @ [Eval_f x])
      | Inr a \<Rightarrow>
          (case df x of
             Inl e \<Rightarrow> (Inl e, lg @ [Eval_f x, Eval_df x])
           | Inr b \<Rightarrow>
               if b = 0 then (Inl ZeroDivisionError, lg @ [Eval_f x, Eval_df x])
               else
                 (case f (x - a / b) of
                    Inl e \<Rightarrow> (Inl e, lg @ [Eval_f x, Eval_df x, Eval_f (x - a / b)])
                  | Inr c \<Rightarrow>
                      (Inr (if \<bar>c\<bar> < eps then Return (x - a / b) else Next (x - a / b)),
                       lg @ [Eval_f x, Eval_df x, Eval_f (x - a / b)]))))"
  by (simp add: newton_body_def bnd_def call_f_def call_df_def py_truediv_def ret_def throw_def
      split: sum.splits)

lemma bisection_body_unfold:
  "bisection_body f eps (x_0, x_1) lg =
     (case f ((x_0 + x_1) / 2) of
        Inl e \<Rightarrow> (Inl e, lg @ [Eval_f ((x_0 + x_1) / 2)])
      | Inr a \<Rightarrow>
          if \<bar>a\<bar> < eps then (Inr (Return ((x_0 + x_1) / 2)), lg @ [Eval_f ((x_0 + x_1) / 2)])
          else
            (case f x_0 of
               Inl e \<Rightarrow>
                 (Inl e, lg @ [Eval_f ((x_0 + x_1) / 2), Eval_f ((x_0 + x_1) / 2), Eval_f x_0])
             | Inr c \<Rightarrow>
                 (Inr (Next (if (a < 0) = (c < 0) then ((x_0 + x_1) / 2, x_1)
                             else (x_0, (x_0 + x_1) / 2))),
                  lg @ [Eval_f ((x_0 + x_1) / 2), Eval_f ((x_0 + x_1) / 2), Eval_f x_0])))"
  by (simp add: bisection_body_def bnd_def call_f_def ret_def Let_def split: sum.splits)

subsection \<open>Number of evaluations\<close>

lemma costs_ret: "costs (ret v) 0"
  by (simp add: costs_def ret_def)

lemma costs_throw: "costs (throw e) 0"
  by (simp add: costs_def throw_def)

lemma costs_mono: "costs m a \<Longrightarrow> a \<le> b \<Longrightarrow> costs m b"
  unfolding costs_def by (meson add_left_mono le_trans)

lemma costs_bnd:
  assumes m: "costs m a" and k: "\<And>v. costs (k v) b"
  shows "costs (bnd m k) (a + b)"
proof (unfold costs_def, rule allI)
  fix lg
  obtain r lg' where r: "m lg = (r, lg')" by (cases "m lg")
  have l1: "length lg' \<le> length lg + a"
    using m r unfolding costs_def by (metis snd_conv)
  show "length (snd (bnd m k lg)) \<le> length lg + (a + b)"
  proof (cases r)
    case (Inl e)
    then show ?thesis using r l1 by (simp add: bnd_def)
  next
    case (Inr v)
    have "length (snd (k v lg')) \<le> length lg' + b"
      using k [of v] unfolding costs_def by blast
    then show ?thesis using Inr r l1 by (simp add: bnd_def)
  qed
qed

lemma costs_newton_body: "costs (newton_body f df eps x) 3"
  by (simp add: costs_def newton_body_unfold split: sum.splits)

lemma costs_bisection_body: "costs (bisection_body f eps br) 3"
  by (cases br) (simp add: costs_def bisection_body_unfold split: sum.splits)

lemma costs_newton_loop: "costs (newton_loop f df eps n x) (3 * n)"
proof (induction n arbitrary: x)
  case 0
  show ?case by (simp add: costs_ret)
next
  case (Suc n)
  have "costs (newton_loop f df eps (Suc n) x) (3 + 3 * n)"
    unfolding newton_loop.simps
  proof (rule costs_bnd [OF costs_newton_body])
    fix c :: "real ctl"
    show "costs (case c of Return r \<Rightarrow> ret (Some r) | Next x' \<Rightarrow> newton_loop f df eps n x') (3 * n)"
      by (cases c) (simp_all add: costs_mono [OF costs_ret] Suc.IH)
  qed
  then show ?case by simp
qed

lemma costs_bisection_loop: "costs (bisection_loop f eps n br) (3 * n)"
proof (induction n arbitrary: br)
  case 0
  show ?case by (simp add: costs_ret)
next
  case (Suc n)
  have "costs (bisection_loop f eps (Suc n) br) (3 + 3 * n)"
    unfolding bisection_loop.simps
  proof (rule costs_bnd [OF costs_bisection_body])
    fix c :: "(real \<times> real) ctl"
    show "costs (case c of Return r \<Rightarrow> ret (Some r) | Next br' \<Rightarrow> bisection_loop f eps n br') (3 * n)"
      by (cases c) (simp_all add: costs_mono [OF costs_ret] Suc.IH)
  qed
  then show ?case by simp
qed

lemma costs_finish: "costs (case r of Some x \<Rightarrow> ret x | None \<Rightarrow> throw e) 0"
  by (cases r) (simp_all add: costs_ret costs_throw)

lemma costs_newton_raphson: "costs (newton_raphson f df x_0 eps max_its) (3 * nat max_its)"
proof -
  have "costs (newton_raphson f df x_0 eps max_its) (3 * nat max_its + 0)"
    unfolding newton_raphson_def
    by (rule costs_bnd [OF costs_newton_loop costs_finish])
  then show ?thesis by simp
qed

subsection \<open>The loop of Newton-Raphson follows the sequence\<close>

lemma spec_iterate_shift:
  "spec_iterate f df x (Suc k) =
     (case spec_update f df x of None \<Rightarrow> None | Some x' \<Rightarrow> spec_iterate f df x' k)"
proof (induction k)
  case 0
  show ?case by (simp split: option.splits)
next
  case (Suc k)
  have "spec_iterate f df x (Suc (Suc k)) =
        (case spec_iterate f df x (Suc k) of None \<Rightarrow> None | Some y \<Rightarrow> spec_update f df y)"
    by (rule spec_iterate.simps(2))
  also have "\<dots> = (case spec_update f df x of None \<Rightarrow> None
                    | Some x' \<Rightarrow> spec_iterate f df x' (Suc k))"
    by (subst Suc.IH) (simp split: option.splits)
  finally show ?case .
qed

lemma newton_body_hit:
  assumes "meets_tol f eps (spec_update f df x)"
  shows "\<exists>y. spec_update f df x = Some y \<and> fst (newton_body f df eps x lg) = Inr (Return y)"
  using assms
  by (auto simp: meets_tol_def spec_update_def newton_body_unfold
      split: option.splits sum.splits if_splits)

lemma newton_body_miss:
  assumes "misses_tol f eps (spec_update f df x)"
  shows "\<exists>y lg'. spec_update f df x = Some y \<and> newton_body f df eps x lg = (Inr (Next y), lg')"
  using assms
  by (auto simp: misses_tol_def spec_update_def newton_body_unfold
      split: option.splits sum.splits if_splits)

lemma newton_loop_miss:
  "\<forall>j\<in>{1..n}. misses_tol f eps (spec_iterate f df x j) \<Longrightarrow>
   fst (newton_loop f df eps n x lg) = Inr None"
proof (induction n arbitrary: x lg)
  case 0
  show ?case by (simp add: ret_def)
next
  case (Suc n)
  have "(1::nat) \<in> {1..Suc n}" by simp
  then have "misses_tol f eps (spec_iterate f df x 1)" using Suc.prems by blast
  then have m1: "misses_tol f eps (spec_update f df x)" by simp
  obtain y lg' where y: "spec_update f df x = Some y"
    and b: "newton_body f df eps x lg = (Inr (Next y), lg')"
    using newton_body_miss [OF m1] by blast
  have "\<forall>j\<in>{1..n}. misses_tol f eps (spec_iterate f df y j)"
  proof
    fix j assume "j \<in> {1..n}"
    then have "Suc j \<in> {1..Suc n}" by simp
    then have "misses_tol f eps (spec_iterate f df x (Suc j))" using Suc.prems by blast
    then show "misses_tol f eps (spec_iterate f df y j)"
      by (simp only: spec_iterate_shift y option.case)
  qed
  then have "fst (newton_loop f df eps n y lg') = Inr None" by (rule Suc.IH)
  then show ?case using b by (simp add: bnd_def)
qed

lemma newton_loop_hit:
  "1 \<le> k \<Longrightarrow> k \<le> n \<Longrightarrow> meets_tol f eps (spec_iterate f df x k) \<Longrightarrow>
   \<forall>j\<in>{1..<k}. misses_tol f eps (spec_iterate f df x j) \<Longrightarrow>
   fst (newton_loop f df eps n x lg) = Inr (spec_iterate f df x k)"
proof (induction n arbitrary: k x lg)
  case 0
  then show ?case by simp
next
  case (Suc n)
  obtain k' where k: "k = Suc k'" using Suc.prems(1) by (cases k) simp_all
  show ?case
  proof (cases k')
    case 0
    then have "meets_tol f eps (spec_update f df x)" using Suc.prems(3) k by simp
    then obtain y where "spec_update f df x = Some y"
      and "fst (newton_body f df eps x lg) = Inr (Return y)"
      using newton_body_hit by blast
    then show ?thesis using k 0
      by (cases "newton_body f df eps x lg") (simp add: bnd_def ret_def)
  next
    case (Suc k'')
    then have "1 \<in> {1..<k}" using k by simp
    then have "misses_tol f eps (spec_iterate f df x 1)" using Suc.prems(4) by blast
    then have m1: "misses_tol f eps (spec_update f df x)" by simp
    obtain y lg' where y: "spec_update f df x = Some y"
      and b: "newton_body f df eps x lg = (Inr (Next y), lg')"
      using newton_body_miss [OF m1] by blast
    have sh: "\<And>j. spec_iterate f df x (Suc j) = spec_iterate f df y j"
      by (simp only: spec_iterate_shift y option.case)
    have 1: "1 \<le> k'" using Suc by simp
    have 2: "k' \<le> n" using Suc.prems(2) k by simp
    have 3: "meets_tol f eps (spec_iterate f df y k')"
      using Suc.prems(3) unfolding k sh .
    have 4: "\<forall>j\<in>{1..<k'}. misses_tol f eps (spec_iterate f df y j)"
    proof
      fix j assume "j \<in> {1..<k'}"
      then have "Suc j \<in> {1..<k}" using k by simp
      then have "misses_tol f eps (spec_iterate f df x (Suc j))" using Suc.prems(4) by blast
      then show "misses_tol f eps (spec_iterate f df y j)" unfolding sh .
    qed
    have "fst (newton_loop f df eps n y lg') = Inr (spec_iterate f df y k')"
      by (rule Suc.IH [OF 1 2 3 4])
    then show ?thesis using b unfolding k sh by (simp add: bnd_def)
  qed
qed

lemma newton_loop_zero_divisor:
  "k < n \<Longrightarrow> spec_iterate f df x k = Some y \<Longrightarrow>
   \<forall>j\<in>{1..k}. misses_tol f eps (spec_iterate f df x j) \<Longrightarrow>
   f y = Inr a \<Longrightarrow> df y = Inr 0 \<Longrightarrow>
   fst (newton_loop f df eps n x lg) = Inl ZeroDivisionError"
proof (induction n arbitrary: k x lg)
  case 0
  then show ?case by simp
next
  case (Suc n)
  show ?case
  proof (cases k)
    case 0
    then have "y = x" using Suc.prems(2) by simp
    then show ?thesis using Suc.prems(4,5)
      by (simp add: newton_body_unfold bnd_def)
  next
    case (Suc k')
    then have "1 \<in> {1..k}" by simp
    then have "misses_tol f eps (spec_iterate f df x 1)" using Suc.prems(3) by blast
    then have m1: "misses_tol f eps (spec_update f df x)" by simp
    obtain z lg' where z: "spec_update f df x = Some z"
      and b: "newton_body f df eps x lg = (Inr (Next z), lg')"
      using newton_body_miss [OF m1] by blast
    have sh: "\<And>j. spec_iterate f df x (Suc j) = spec_iterate f df z j"
      by (simp only: spec_iterate_shift z option.case)
    have 1: "k' < n" using Suc.prems(1) Suc by simp
    have 2: "spec_iterate f df z k' = Some y" using Suc.prems(2) unfolding Suc sh .
    have 3: "\<forall>j\<in>{1..k'}. misses_tol f eps (spec_iterate f df z j)"
    proof
      fix j assume "j \<in> {1..k'}"
      then have "Suc j \<in> {1..k}" using Suc by simp
      then have "misses_tol f eps (spec_iterate f df x (Suc j))" using Suc.prems(3) by blast
      then show "misses_tol f eps (spec_iterate f df z j)" unfolding sh .
    qed
    have "fst (newton_loop f df eps n z lg') = Inl ZeroDivisionError"
      by (rule Suc.IH [OF 1 2 3 Suc.prems(4,5)])
    then show ?thesis using b by (simp add: bnd_def)
  qed
qed

subsection \<open>The loop of the bisection\<close>

lemma opposite_step:
  assumes "opposite f br" and "fst (bisection_body f eps br lg) = Inr (Next br')"
  shows "opposite f br'"
proof (cases br)
  case (Pair a b)
  show ?thesis using assms unfolding Pair
    by (auto simp: opposite_def bisection_body_unfold split: sum.splits if_splits)
qed

lemma bisection_body_fst: "fst (bisection_body f eps br lg) = fst (bisection_body f eps br [])"
  using appendsD [OF appends_bisection_body, of f eps br lg] by simp

lemma opposite_at:
  "opposite f br \<Longrightarrow> bisection_at f eps k br = Some br' \<Longrightarrow> opposite f br'"
proof (induction k arbitrary: br)
  case 0
  then show ?case by simp
next
  case (Suc k)
  from Suc.prems(2) obtain b1 where b1: "fst (bisection_body f eps br []) = Inr (Next b1)"
    and at: "bisection_at f eps k b1 = Some br'"
    by (auto split: sum.splits ctl.splits)
  have "opposite f b1" using opposite_step [OF Suc.prems(1) b1] .
  then show ?case using at by (rule Suc.IH)
qed

lemma bisection_loop_at:
  "bisection_at f eps k br = Some br' \<Longrightarrow> k \<le> n \<Longrightarrow>
   fst (bisection_loop f eps n br lg) = fst (bisection_loop f eps (n - k) br' [])"
proof (induction k arbitrary: br n lg)
  case 0
  then show ?case using appendsD [OF appends_bisection_loop, of f eps n br lg] by simp
next
  case (Suc k)
  from Suc.prems(1) obtain b1 where b1: "fst (bisection_body f eps br []) = Inr (Next b1)"
    and at: "bisection_at f eps k b1 = Some br'"
    by (auto split: sum.splits ctl.splits)
  obtain n' where n: "n = Suc n'" using Suc.prems(2) by (cases n) simp_all
  have kn: "k \<le> n'" using Suc.prems(2) n by simp
  obtain lg' where b: "bisection_body f eps br lg = (Inr (Next b1), lg')"
    using b1 bisection_body_fst [of f eps br lg] by (cases "bisection_body f eps br lg") simp
  have "fst (bisection_loop f eps n' b1 lg') = fst (bisection_loop f eps (n' - k) br' [])"
    by (rule Suc.IH [OF at kn])
  then show ?case using b n by (simp add: bnd_def)
qed

lemma bisection_loop_nested:
  "fst (bisection_loop f eps n (a, b) lg) = Inr (Some r) \<Longrightarrow> min a b \<le> r \<and> r \<le> max a b"
proof (induction n arbitrary: a b lg)
  case 0
  then show ?case by (simp add: ret_def)
next
  case (Suc n)
  obtain c lg' where c: "bisection_body f eps (a, b) lg = (Inr c, lg')"
    using Suc.prems by (cases "bisection_body f eps (a, b) lg") (auto simp: bnd_def split: sum.splits)
  show ?case
  proof (cases c)
    case (Return r')
    then have "r' = (a + b) / 2" using c
      by (auto simp: bisection_body_unfold split: sum.splits if_splits)
    moreover have "r = r'" using Suc.prems c Return by (simp add: bnd_def ret_def)
    ultimately show ?thesis by (simp add: min_def max_def)
  next
    case (Next br')
    obtain a' b' where br': "br' = (a', b')" by (cases br')
    have step: "(a' = (a + b) / 2 \<and> b' = b) \<or> (a' = a \<and> b' = (a + b) / 2)"
      using c Next br' by (auto simp: bisection_body_unfold split: sum.splits if_splits)
    have "fst (bisection_loop f eps n (a', b') lg') = Inr (Some r)"
      using Suc.prems c Next br' by (simp add: bnd_def)
    then have "min a' b' \<le> r \<and> r \<le> max a' b'" by (rule Suc.IH)
    then show ?thesis using step by (auto simp: min_def max_def split: if_splits)
  qed
qed

lemma spec_bracket_shift:
  "spec_bracket g br (Suc k) = spec_bracket g (spec_bracket g br 1) k"
proof (induction k)
  case 0
  show ?case by simp
next
  case (Suc k)
  have "spec_bracket g br (Suc (Suc k)) =
        (case spec_bracket g br (Suc k) of (x_0, x_1) \<Rightarrow>
           if (g ((x_0 + x_1) / 2) < 0) = (g x_0 < 0) then ((x_0 + x_1) / 2, x_1)
           else (x_0, (x_0 + x_1) / 2))"
    by (rule spec_bracket.simps(2))
  also have "\<dots> = spec_bracket g (spec_bracket g br 1) (Suc k)"
    unfolding Suc.IH by (simp only: spec_bracket.simps(2))
  finally show ?case .
qed

lemma spec_midpoint_shift:
  "spec_midpoint g br (Suc k) = spec_midpoint g (spec_bracket g br 1) k"
  unfolding spec_midpoint_def spec_bracket_shift [of g br k] ..

lemma bisection_body_pure_hit:
  assumes "\<bar>g (spec_midpoint g br 0)\<bar> < eps"
  shows "fst (bisection_body (pure_fn g) eps br lg) = Inr (Return (spec_midpoint g br 0))"
  using assms
  by (cases br) (simp add: spec_midpoint_def bisection_body_unfold pure_fn_def)

lemma bisection_body_pure_miss:
  assumes "\<not> \<bar>g (spec_midpoint g br 0)\<bar> < eps"
  shows "\<exists>lg'. bisection_body (pure_fn g) eps br lg = (Inr (Next (spec_bracket g br 1)), lg')"
  using assms
  by (cases br) (simp add: spec_midpoint_def bisection_body_unfold pure_fn_def)

lemma bisection_loop_pure_hit:
  "k < n \<Longrightarrow> \<bar>g (spec_midpoint g br k)\<bar> < eps \<Longrightarrow>
   \<forall>j\<in>{..<k}. \<not> \<bar>g (spec_midpoint g br j)\<bar> < eps \<Longrightarrow>
   fst (bisection_loop (pure_fn g) eps n br lg) = Inr (Some (spec_midpoint g br k))"
proof (induction n arbitrary: k br lg)
  case 0
  then show ?case by simp
next
  case (Suc n)
  show ?case
  proof (cases k)
    case 0
    then have "fst (bisection_body (pure_fn g) eps br lg) = Inr (Return (spec_midpoint g br 0))"
      using Suc.prems(2) bisection_body_pure_hit by blast
    then show ?thesis using 0
      by (cases "bisection_body (pure_fn g) eps br lg") (simp add: bnd_def ret_def)
  next
    case (Suc k')
    then have "0 \<in> {..<k}" by simp
    then have "\<not> \<bar>g (spec_midpoint g br 0)\<bar> < eps" using Suc.prems(3) by blast
    then obtain lg' where
      b: "bisection_body (pure_fn g) eps br lg = (Inr (Next (spec_bracket g br 1)), lg')"
      using bisection_body_pure_miss by blast
    have 1: "k' < n" using Suc.prems(1) Suc by simp
    have 2: "\<bar>g (spec_midpoint g (spec_bracket g br 1) k')\<bar> < eps"
      using Suc.prems(2) unfolding Suc spec_midpoint_shift .
    have 3: "\<forall>j\<in>{..<k'}. \<not> \<bar>g (spec_midpoint g (spec_bracket g br 1) j)\<bar> < eps"
    proof
      fix j assume "j \<in> {..<k'}"
      then have "Suc j \<in> {..<k}" using Suc by simp
      then have "\<not> \<bar>g (spec_midpoint g br (Suc j))\<bar> < eps" using Suc.prems(3) by blast
      then show "\<not> \<bar>g (spec_midpoint g (spec_bracket g br 1) j)\<bar> < eps"
        unfolding spec_midpoint_shift .
    qed
    have "fst (bisection_loop (pure_fn g) eps n (spec_bracket g br 1) lg') =
          Inr (Some (spec_midpoint g (spec_bracket g br 1) k'))"
      by (rule Suc.IH [OF 1 2 3])
    then show ?thesis using b unfolding Suc spec_midpoint_shift by (simp add: bnd_def)
  qed
qed

lemma bisection_loop_pure_miss:
  "\<forall>j\<in>{..<n}. \<not> \<bar>g (spec_midpoint g br j)\<bar> < eps \<Longrightarrow>
   fst (bisection_loop (pure_fn g) eps n br lg) = Inr None"
proof (induction n arbitrary: br lg)
  case 0
  show ?case by (simp add: ret_def)
next
  case (Suc n)
  have "0 \<in> {..<Suc n}" by simp
  then have "\<not> \<bar>g (spec_midpoint g br 0)\<bar> < eps" using Suc.prems by blast
  then obtain lg' where
    b: "bisection_body (pure_fn g) eps br lg = (Inr (Next (spec_bracket g br 1)), lg')"
    using bisection_body_pure_miss by blast
  have "\<forall>j\<in>{..<n}. \<not> \<bar>g (spec_midpoint g (spec_bracket g br 1) j)\<bar> < eps"
  proof
    fix j assume "j \<in> {..<n}"
    then have "Suc j \<in> {..<Suc n}" by simp
    then have "\<not> \<bar>g (spec_midpoint g br (Suc j))\<bar> < eps" using Suc.prems by blast
    then show "\<not> \<bar>g (spec_midpoint g (spec_bracket g br 1) j)\<bar> < eps"
      unfolding spec_midpoint_shift .
  qed
  then have "fst (bisection_loop (pure_fn g) eps n (spec_bracket g br 1) lg') = Inr None"
    by (rule Suc.IH)
  then show ?case using b by (simp add: bnd_def)
qed

lemma oppositeE:
  assumes "opposite f (a, b)"
  obtains u v where "f a = Inr u" and "f b = Inr v" and "(u < 0) \<noteq> (v < 0)"
proof -
  obtain u where u: "f a = Inr u" using assms
    by (cases "f a") (simp_all add: opposite_def)
  obtain v where v: "f b = Inr v" using assms u
    by (cases "f b") (simp_all add: opposite_def)
  have "(u < 0) \<noteq> (v < 0)" using assms u v by (simp add: opposite_def)
  then show ?thesis using that u v by blast
qed

lemma bisection_body_update:
  assumes o: "opposite f (a, b)"
    and n: "fst (bisection_body f eps (a, b) lg) = Inr (Next br')"
  shows "br' = (if opposite f (a, (a + b) / 2) then (a, (a + b) / 2) else ((a + b) / 2, b))"
proof -
  obtain u v where u: "f a = Inr u" and v: "f b = Inr v" and uv: "(u < 0) \<noteq> (v < 0)"
    using o by (rule oppositeE)
  obtain c where c: "f ((a + b) / 2) = Inr c"
    using n by (cases "f ((a + b) / 2)") (simp_all add: bisection_body_unfold)
  have far: "\<not> \<bar>c\<bar> < eps"
    using n c by (cases "\<bar>c\<bar> < eps") (simp_all add: bisection_body_unfold)
  have br': "br' = (if (c < 0) = (u < 0) then ((a + b) / 2, b) else (a, (a + b) / 2))"
    using n c far u by (simp add: bisection_body_unfold)
  have "opposite f (a, (a + b) / 2) \<longleftrightarrow> (u < 0) \<noteq> (c < 0)"
    using u c by (simp add: opposite_def)
  then show ?thesis using br' by auto
qed

subsection \<open>Entry test, fallback and division by zero\<close>

lemmas run_simps =
  newton_raphson_def bisection_def solve_def try_except_ConvergenceError_def
  newton_body_unfold bisection_body_unfold bnd_def ret_def throw_def call_f_def call_df_def
  pure_fn_def newton_message_def bisection_message_def str_int_def digit_char_def
  ex_line_def ex_one_def ex_zero_def ex_square_def ex_two_x_def

lemmas spec_simps = spec_update_def meets_tol_def misses_tol_def opposite_def

lemma grows: "appends m \<Longrightarrow> length lg \<le> length (snd (m lg))"
  using appendsD [of m lg] by simp

lemma bisection_body_grows: "length lg < length (snd (bisection_body f eps br lg))"
  by (cases br) (simp add: bisection_body_unfold split: sum.splits)

lemma bisection_loop_Suc_grows:
  "length lg < length (snd (bisection_loop f eps (Suc n) br lg))"
proof -
  obtain c lg' where b: "bisection_body f eps br lg = (c, lg')"
    by (cases "bisection_body f eps br lg")
  have l: "length lg < length lg'" using bisection_body_grows [of lg f eps br] b by simp
  show ?thesis
  proof (cases c)
    case (Inl e)
    then show ?thesis using b l by (simp add: bnd_def)
  next
    case (Inr v)
    show ?thesis
    proof (cases v)
      case (Return r)
      then show ?thesis using Inr b l by (simp add: bnd_def ret_def)
    next
      case (Next br')
      have "length lg' \<le> length (snd (bisection_loop f eps n br' lg'))"
        by (rule grows [OF appends_bisection_loop])
      then show ?thesis using Next Inr b l by (simp add: bnd_def)
    qed
  qed
qed

lemma finish_snd:
  "snd (bnd m (\<lambda>r. case r of Some x \<Rightarrow> ret x | None \<Rightarrow> throw e) lg) = snd (m lg)"
  by (cases "m lg") (simp add: bnd_def ret_def throw_def split: sum.splits option.splits)

lemma bisection_entry:
  assumes "f x_0 = Inr a" and "f x_1 = Inr b"
  shows "bisection f x_0 x_1 eps max_its lg =
     (if (a < 0) = (b < 0) then (Inl (ValueError x_0 x_1), lg @ [Eval_f x_0, Eval_f x_1])
      else bnd (bisection_loop f eps (nat max_its) (x_0, x_1))
             (\<lambda>r. case r of
                Some x \<Rightarrow> ret x
              | None \<Rightarrow> throw (ConvergenceError (bisection_message max_its)))
             (lg @ [Eval_f x_0, Eval_f x_1]))"
  using assms by (simp add: bisection_def bnd_def call_f_def throw_def)

lemma bisection_iterating_not_entry_failure:
  "bnd (bisection_loop f eps n br)
     (\<lambda>r. case r of Some x \<Rightarrow> ret x | None \<Rightarrow> throw (ConvergenceError msg)) lg
   \<noteq> (Inl (ValueError u v), lg)"
proof (cases n)
  case 0
  then show ?thesis by (simp add: bnd_def ret_def throw_def)
next
  case (Suc n')
  have "length lg < length (snd (bnd (bisection_loop f eps n br)
     (\<lambda>r. case r of Some x \<Rightarrow> ret x | None \<Rightarrow> throw (ConvergenceError msg)) lg))"
    unfolding finish_snd Suc by (rule bisection_loop_Suc_grows)
  then show ?thesis by auto
qed

lemma costs_call_f: "costs (call_f f x) 1"
  by (simp add: costs_def call_f_def)

lemma costs_bisection: "costs (bisection f x_0 x_1 eps max_its) (2 + 3 * nat max_its)"
proof -
  have "costs (bisection f x_0 x_1 eps max_its) (1 + (1 + (3 * nat max_its + 0)))"
    unfolding bisection_def
  proof (intro costs_bnd costs_call_f)
    fix a b :: real
    have l: "costs (bnd (bisection_loop f eps (nat max_its) (x_0, x_1))
         (\<lambda>r. case r of Some x \<Rightarrow> ret x
            | None \<Rightarrow> throw (ConvergenceError (bisection_message max_its))))
       (3 * nat max_its + 0)"
      by (rule costs_bnd [OF costs_bisection_loop costs_finish])
    have t: "costs (throw (ValueError x_0 x_1) :: real comp) (3 * nat max_its + 0)"
      by (rule costs_mono [OF costs_throw]) simp
    show "costs (if (a < 0) = (b < 0) then throw (ValueError x_0 x_1)
       else bnd (bisection_loop f eps (nat max_its) (x_0, x_1))
         (\<lambda>r. case r of Some x \<Rightarrow> ret x
            | None \<Rightarrow> throw (ConvergenceError (bisection_message max_its))))
       (3 * nat max_its + 0)"
      using l t by simp
  qed
  then show ?thesis by simp
qed

lemma costs_appends:
  assumes "appends m" and "costs m c"
  shows "\<exists>evs. snd (m lg) = lg @ evs \<and> length evs \<le> c"
proof -
  have "length (snd (m [])) \<le> c" using assms(2) unfolding costs_def by (metis add_0 list.size(3))
  moreover have "snd (m lg) = lg @ snd (m [])" using appendsD [OF assms(1), of lg] by simp
  ultimately show ?thesis by blast
qed

lemma solve_cases:
  "solve f df x_0 x_1 eps max_its_n max_its_b lg =
     (case newton_raphson f df x_0 eps max_its_n lg of
        (Inr v, lg') \<Rightarrow> (Inr v, lg')
      | (Inl e, lg') \<Rightarrow>
          (case e of
             ConvergenceError msg \<Rightarrow> bisection f x_0 x_1 eps max_its_b lg'
           | _ \<Rightarrow> (Inl e, lg')))"
  by (simp add: solve_def try_except_ConvergenceError_def)

lemma newton_raphson_division_by_zero:
  assumes "0 < max_its" and "f x_0 = Inr a" and "df x_0 = Inr 0"
  shows "newton_raphson f df x_0 eps max_its lg = (Inl ZeroDivisionError, lg @ [Eval_f x_0, Eval_df x_0])"
proof -
  obtain n where n: "nat max_its = Suc n" using assms(1) by (cases "nat max_its") simp_all
  show ?thesis using assms(2,3)
    by (simp add: newton_raphson_def n newton_body_unfold bnd_def)
qed

subsection \<open>The bisection over binary64 values\<close>

lemma fl_midpoint_finite:
  assumes "lo \<le> a" "a \<le> hi" "lo \<le> b" "b \<le> hi"
    and "2 * max \<bar>lo\<bar> \<bar>hi\<bar> < overflow_threshold"
  shows "fl_halve (fl_add (Finite a) (Finite b)) = Finite ((a + b) / 2)"
proof -
  have "\<bar>a\<bar> \<le> max \<bar>lo\<bar> \<bar>hi\<bar>" and "\<bar>b\<bar> \<le> max \<bar>lo\<bar> \<bar>hi\<bar>"
    using assms(1-4) by (auto simp: max_def abs_if)
  then have "\<bar>a + b\<bar> \<le> 2 * max \<bar>lo\<bar> \<bar>hi\<bar>" by linarith
  then have "\<bar>a + b\<bar> < overflow_threshold" using assms(5) by linarith
  then have "fl_result (a + b) = Finite (a + b)"
    by (auto simp: fl_result_def abs_if split: if_splits)
  then show ?thesis by simp
qed

lemma fl_bisection_body_cases:
  assumes "fl_bisection_body f eps (x_0, x_1) = Inr c"
  shows "c = Fl_Return (fl_halve (fl_add x_0 x_1)) \<or>
         c = Fl_Next (fl_halve (fl_add x_0 x_1), x_1) \<or>
         c = Fl_Next (x_0, fl_halve (fl_add x_0 x_1))"
  using assms
  by (auto simp: fl_bisection_body_def Let_def split: sum.splits if_splits)

lemma fl_bisection_loop_nested:
  assumes "2 * max \<bar>lo\<bar> \<bar>hi\<bar> < overflow_threshold"
  shows "lo \<le> a \<Longrightarrow> a \<le> hi \<Longrightarrow> lo \<le> b \<Longrightarrow> b \<le> hi \<Longrightarrow>
         fl_bisection_loop f eps n (Finite a, Finite b) = Inr (Some r) \<Longrightarrow>
         \<exists>v. r = Finite v \<and> lo \<le> v \<and> v \<le> hi"
proof (induction n arbitrary: a b)
  case 0
  then show ?case by simp
next
  case (Suc n)
  let ?m = "(a + b) / 2"
  have mid: "fl_halve (fl_add (Finite a) (Finite b)) = Finite ?m"
    using Suc.prems(1-4) assms by (rule fl_midpoint_finite)
  have m: "lo \<le> ?m" "?m \<le> hi" using Suc.prems(1-4) by simp_all
  obtain c where c: "fl_bisection_body f eps (Finite a, Finite b) = Inr c"
    using Suc.prems(5) by (cases "fl_bisection_body f eps (Finite a, Finite b)") simp_all
  from fl_bisection_body_cases [OF c]
  consider (ret) "c = Fl_Return (Finite ?m)"
    | (left) "c = Fl_Next (Finite ?m, Finite b)"
    | (right) "c = Fl_Next (Finite a, Finite ?m)"
    unfolding mid by blast
  then show ?case
  proof cases
    case ret
    then have "r = Finite ?m" using Suc.prems(5) c by simp
    then show ?thesis using m by blast
  next
    case left
    then have "fl_bisection_loop f eps n (Finite ?m, Finite b) = Inr (Some r)"
      using Suc.prems(5) c by simp
    then show ?thesis using Suc.IH [OF m Suc.prems(3,4)] by blast
  next
    case right
    then have "fl_bisection_loop f eps n (Finite a, Finite ?m) = Inr (Some r)"
      using Suc.prems(5) c by simp
    then show ?thesis using Suc.IH [OF Suc.prems(1,2) m] by blast
  qed
qed

lemma fl_bisection_loop_of_result:
  assumes "fl_bisection f x_0 x_1 eps max_its = Inr r"
  shows "fl_bisection_loop f eps (nat max_its) (x_0, x_1) = Inr (Some r)"
  using assms
  by (auto simp: fl_bisection_def split: sum.splits if_splits option.splits)

section \<open>Properties\<close>

text \<open>
  C1. \<open>solve\<close> runs \<open>newton_raphson\<close> first. A value is returned as it is; on a
  \<open>ConvergenceError\<close>, and only then, \<open>bisection\<close> runs, from the log that Newton-Raphson
  left; every other exception is raised to the caller unchanged with the log that Newton-Raphson
  left, so \<open>bisection\<close> has evaluated nothing. In particular a zero derivative at \<open>x_0\<close>, with
  a budget of at least one, ends \<open>solve\<close> with \<open>ZeroDivisionError\<close> after one evaluation of
  \<open>f\<close> and one of \<open>df\<close>.
\<close>

theorem solve_fallback_policy:
  "(\<forall>v lg'. newton_raphson f df x_0 eps max_its_n lg = (Inr v, lg') \<longrightarrow>
      solve f df x_0 x_1 eps max_its_n max_its_b lg = (Inr v, lg')) \<and>
   (\<forall>msg lg'. newton_raphson f df x_0 eps max_its_n lg = (Inl (ConvergenceError msg), lg') \<longrightarrow>
      solve f df x_0 x_1 eps max_its_n max_its_b lg = bisection f x_0 x_1 eps max_its_b lg') \<and>
   (\<forall>e lg'. newton_raphson f df x_0 eps max_its_n lg = (Inl e, lg') \<and>
        (\<forall>msg. e \<noteq> ConvergenceError msg) \<longrightarrow>
      solve f df x_0 x_1 eps max_its_n max_its_b lg = (Inl e, lg')) \<and>
   (\<forall>a. 0 < max_its_n \<and> f x_0 = Inr a \<and> df x_0 = Inr 0 \<longrightarrow>
      solve f df x_0 x_1 eps max_its_n max_its_b lg =
        (Inl ZeroDivisionError, lg @ [Eval_f x_0, Eval_df x_0]))"
proof (intro conjI allI impI)
  fix v lg' assume "newton_raphson f df x_0 eps max_its_n lg = (Inr v, lg')"
  then show "solve f df x_0 x_1 eps max_its_n max_its_b lg = (Inr v, lg')"
    by (simp add: solve_cases)
next
  fix msg lg' assume "newton_raphson f df x_0 eps max_its_n lg = (Inl (ConvergenceError msg), lg')"
  then show "solve f df x_0 x_1 eps max_its_n max_its_b lg = bisection f x_0 x_1 eps max_its_b lg'"
    by (simp add: solve_cases)
next
  fix e lg'
  assume "newton_raphson f df x_0 eps max_its_n lg = (Inl e, lg') \<and> (\<forall>msg. e \<noteq> ConvergenceError msg)"
  then show "solve f df x_0 x_1 eps max_its_n max_its_b lg = (Inl e, lg')"
    by (cases e) (simp_all add: solve_cases)
next
  fix a assume "0 < max_its_n \<and> f x_0 = Inr a \<and> df x_0 = Inr 0"
  then have "newton_raphson f df x_0 eps max_its_n lg =
      (Inl ZeroDivisionError, lg @ [Eval_f x_0, Eval_df x_0])"
    using newton_raphson_division_by_zero by blast
  then show "solve f df x_0 x_1 eps max_its_n max_its_b lg =
      (Inl ZeroDivisionError, lg @ [Eval_f x_0, Eval_df x_0])"
    by (simp add: solve_cases)
qed

theorem solve_fallback_policy_witness:
  "newton_raphson (pure_fn ex_one) (pure_fn ex_zero) 0 (1/2) 1 [] =
     (Inl ZeroDivisionError, [Eval_f 0, Eval_df 0]) \<and>
   solve (pure_fn ex_one) (pure_fn ex_zero) 0 6 (1/2) 1 1 [] =
     (Inl ZeroDivisionError, [Eval_f 0, Eval_df 0]) \<and>
   newton_raphson (pure_fn ex_square) (pure_fn ex_two_x) 1 (1/8) 1 [] =
     (Inl (ConvergenceError ''Newton-Raphson failed to converge after1 attempts.''),
      [Eval_f 1, Eval_df 1, Eval_f (3/2)]) \<and>
   solve (pure_fn ex_square) (pure_fn ex_two_x) 1 2 (1/8) 1 1 [] =
     bisection (pure_fn ex_square) 1 2 (1/8) 1 [Eval_f 1, Eval_df 1, Eval_f (3/2)]"
proof -
  have n1: "newton_raphson (pure_fn ex_one) (pure_fn ex_zero) 0 (1/2) 1 [] =
     (Inl ZeroDivisionError, [Eval_f 0, Eval_df 0])"
    by (simp add: run_simps)
  have d1: "\<forall>msg. ZeroDivisionError \<noteq> ConvergenceError msg" by simp
  have n2: "newton_raphson (pure_fn ex_square) (pure_fn ex_two_x) 1 (1/8) 1 [] =
     (Inl (ConvergenceError ''Newton-Raphson failed to converge after1 attempts.''),
      [Eval_f 1, Eval_df 1, Eval_f (3/2)])"
    by (simp add: run_simps)
  show ?thesis
    using n1 d1 n2
      solve_fallback_policy [of "pure_fn ex_one" "pure_fn ex_zero" 0 "1/2" 1 "[]" 6 1]
      solve_fallback_policy [of "pure_fn ex_square" "pure_fn ex_two_x" 1 "1/8" 1 "[]" 2 1]
    by blast
qed

text \<open>
  C2. When \<open>newton_raphson\<close> returns a value, \<open>solve\<close> returns that value with the same
  log of evaluations (so \<open>bisection\<close> evaluates nothing), and neither \<open>x_1\<close> nor the budget
  of the bisection has any effect.
\<close>

theorem solve_returns_newton_result:
  assumes "newton_raphson f df x_0 eps max_its_n lg = (Inr v, lg')"
  shows "solve f df x_0 x_1 eps max_its_n max_its_b lg = (Inr v, lg') \<and>
         solve f df x_0 x_1' eps max_its_n max_its_b' lg =
           solve f df x_0 x_1 eps max_its_n max_its_b lg"
  using assms by (simp add: solve_cases)

theorem solve_returns_newton_result_witness:
  "newton_raphson (pure_fn ex_square) (pure_fn ex_two_x) 1 (1/8) 2 [] =
     (Inr (17/12), [Eval_f 1, Eval_df 1, Eval_f (3/2), Eval_f (3/2), Eval_df (3/2), Eval_f (17/12)]) \<and>
   solve (pure_fn ex_square) (pure_fn ex_two_x) 1 2 (1/8) 2 20 [] =
     (Inr (17/12), [Eval_f 1, Eval_df 1, Eval_f (3/2), Eval_f (3/2), Eval_df (3/2), Eval_f (17/12)]) \<and>
   solve (pure_fn ex_square) (pure_fn ex_two_x) 1 (-5) (1/8) 2 0 [] =
     solve (pure_fn ex_square) (pure_fn ex_two_x) 1 2 (1/8) 2 20 []"
proof -
  have n: "newton_raphson (pure_fn ex_square) (pure_fn ex_two_x) 1 (1/8) 2 [] =
     (Inr (17/12), [Eval_f 1, Eval_df 1, Eval_f (3/2), Eval_f (3/2), Eval_df (3/2), Eval_f (17/12)])"
    by (simp add: run_simps numeral_2_eq_2)
  show ?thesis
    using n solve_returns_newton_result [OF n, of 2 20 "-5" 0] by simp
qed

text \<open>
  C3, as stated, fails: with a derivative that is zero at \<open>x_0\<close>, positive \<open>eps\<close> and a
  positive budget, \<open>newton_raphson\<close> neither returns an iterate nor raises
  \<open>ConvergenceError\<close>; the division raises \<open>ZeroDivisionError\<close>.
\<close>

theorem newton_raphson_division_fault_counterexample:
  "(0::real) < 1 / 2 \<and> (0::int) < 1 \<and>
   newton_raphson (pure_fn ex_one) (pure_fn ex_zero) 0 (1 / 2) 1 [] =
     (Inl ZeroDivisionError, [Eval_f 0, Eval_df 0]) \<and>
   ZeroDivisionError \<noteq> ConvergenceError (newton_message 1)"
  by (simp add: run_simps)

text \<open>
  C3, amended. For positive \<open>eps\<close> and a positive budget: if member \<open>k\<close> of the Newton
  sequence, with \<open>1 \<le> k \<le> max_its\<close>, is the first updated iterate within the tolerance (every
  member from the first to the one before it is defined and misses the tolerance), then
  \<open>newton_raphson\<close> returns it; the starting point itself is never tested. If every member from
  the first to member \<open>max_its\<close> is defined and misses the tolerance, \<open>newton_raphson\<close> raises
  \<open>ConvergenceError\<close> with the message that carries \<open>max_its\<close>. If the derivative is zero at
  member \<open>i < max_its\<close> (the starting point for \<open>i = 0\<close>), where \<open>f\<close> returns a number, and
  every member from the first to member \<open>i\<close> is defined and misses the tolerance, then
  \<open>newton_raphson\<close> raises \<open>ZeroDivisionError\<close>. A member is defined only when \<open>f\<close> and
  \<open>df\<close> return numbers and no divisor is zero.
\<close>

theorem newton_raphson_first_converged_iterate:
  assumes "0 < eps" and "0 < max_its"
  shows "(1 \<le> k \<and> k \<le> nat max_its \<and> spec_iterate f df x_0 k = Some x \<and>
          meets_tol f eps (Some x) \<and>
          (\<forall>j\<in>{1..<k}. misses_tol f eps (spec_iterate f df x_0 j)) \<longrightarrow>
            fst (newton_raphson f df x_0 eps max_its lg) = Inr x) \<and>
         ((\<forall>j\<in>{1..nat max_its}. misses_tol f eps (spec_iterate f df x_0 j)) \<longrightarrow>
            fst (newton_raphson f df x_0 eps max_its lg) =
              Inl (ConvergenceError (newton_message max_its))) \<and>
         (i < nat max_its \<and> spec_iterate f df x_0 i = Some y \<and>
          (\<forall>j\<in>{1..i}. misses_tol f eps (spec_iterate f df x_0 j)) \<and>
          f y = Inr a \<and> df y = Inr 0 \<longrightarrow>
            fst (newton_raphson f df x_0 eps max_its lg) = Inl ZeroDivisionError)"
proof (intro conjI impI)
  assume h: "1 \<le> k \<and> k \<le> nat max_its \<and> spec_iterate f df x_0 k = Some x \<and>
          meets_tol f eps (Some x) \<and>
          (\<forall>j\<in>{1..<k}. misses_tol f eps (spec_iterate f df x_0 j))"
  then have "meets_tol f eps (spec_iterate f df x_0 k)" by simp
  with h have "fst (newton_loop f df eps (nat max_its) x_0 lg) = Inr (spec_iterate f df x_0 k)"
    by (intro newton_loop_hit) simp_all
  then have "fst (newton_loop f df eps (nat max_its) x_0 lg) = Inr (Some x)" using h by simp
  then show "fst (newton_raphson f df x_0 eps max_its lg) = Inr x"
    by (cases "newton_loop f df eps (nat max_its) x_0 lg")
       (simp add: newton_raphson_def bnd_def ret_def)
next
  assume "\<forall>j\<in>{1..nat max_its}. misses_tol f eps (spec_iterate f df x_0 j)"
  then have "fst (newton_loop f df eps (nat max_its) x_0 lg) = Inr None"
    by (rule newton_loop_miss)
  then show "fst (newton_raphson f df x_0 eps max_its lg) =
      Inl (ConvergenceError (newton_message max_its))"
    by (cases "newton_loop f df eps (nat max_its) x_0 lg")
       (simp add: newton_raphson_def bnd_def throw_def)
next
  assume h: "i < nat max_its \<and> spec_iterate f df x_0 i = Some y \<and>
          (\<forall>j\<in>{1..i}. misses_tol f eps (spec_iterate f df x_0 j)) \<and>
          f y = Inr a \<and> df y = Inr 0"
  then have "fst (newton_loop f df eps (nat max_its) x_0 lg) = Inl ZeroDivisionError"
    by (intro newton_loop_zero_divisor [of i _ f df x_0 y eps a]) simp_all
  then show "fst (newton_raphson f df x_0 eps max_its lg) = Inl ZeroDivisionError"
    by (cases "newton_loop f df eps (nat max_its) x_0 lg")
       (simp add: newton_raphson_def bnd_def)
qed

theorem newton_raphson_first_converged_iterate_witness:
  "(0::real) < 1 / 8 \<and> (0::int) < 2 \<and> (1::nat) \<le> 2 \<and> (2::nat) \<le> nat 2 \<and>
   spec_iterate (pure_fn ex_square) (pure_fn ex_two_x) 1 2 = Some (17 / 12) \<and>
   meets_tol (pure_fn ex_square) (1 / 8) (Some (17 / 12)) \<and>
   misses_tol (pure_fn ex_square) (1 / 8) (spec_iterate (pure_fn ex_square) (pure_fn ex_two_x) 1 1) \<and>
   fst (newton_raphson (pure_fn ex_square) (pure_fn ex_two_x) 1 (1 / 8) 2 []) = Inr (17 / 12) \<and>
   (0::int) < 1 \<and>
   fst (newton_raphson (pure_fn ex_square) (pure_fn ex_two_x) 1 (1 / 8) 1 []) =
     Inl (ConvergenceError (newton_message 1)) \<and>
   (1::nat) < nat 2 \<and>
   spec_iterate (pure_fn ex_square) (pure_fn ex_two_minus) 1 1 = Some 2 \<and>
   misses_tol (pure_fn ex_square) (1 / 8) (spec_iterate (pure_fn ex_square) (pure_fn ex_two_minus) 1 1) \<and>
   pure_fn ex_square 2 = Inr 2 \<and> pure_fn ex_two_minus 2 = Inr 0 \<and>
   fst (newton_raphson (pure_fn ex_square) (pure_fn ex_two_minus) 1 (1 / 8) 2 []) =
     Inl ZeroDivisionError"
proof -
  have e: "(0::real) < 1 / 8" by simp
  have m2: "(0::int) < 2" by simp
  have m1: "(0::int) < 1" by simp
  have s2: "spec_iterate (pure_fn ex_square) (pure_fn ex_two_x) 1 2 = Some (17 / 12)"
    by (simp add: numeral_2_eq_2 spec_simps run_simps)
  have s1: "spec_iterate (pure_fn ex_square) (pure_fn ex_two_x) 1 1 = Some (3 / 2)"
    by (simp add: spec_simps run_simps)
  have hit: "meets_tol (pure_fn ex_square) (1 / 8) (Some (17 / 12))"
    by (simp add: spec_simps run_simps)
  have miss: "misses_tol (pure_fn ex_square) (1 / 8)
      (spec_iterate (pure_fn ex_square) (pure_fn ex_two_x) 1 1)"
    unfolding s1 by (simp add: spec_simps run_simps)
  have q2: "\<forall>j\<in>{1..<2::nat}. misses_tol (pure_fn ex_square) (1 / 8)
      (spec_iterate (pure_fn ex_square) (pure_fn ex_two_x) 1 j)"
  proof
    fix j :: nat assume "j \<in> {1..<2}"
    then have "j = 1" by auto
    then show "misses_tol (pure_fn ex_square) (1 / 8)
      (spec_iterate (pure_fn ex_square) (pure_fn ex_two_x) 1 j)" using miss by simp
  qed
  have q1: "\<forall>j\<in>{1..nat 1}. misses_tol (pure_fn ex_square) (1 / 8)
      (spec_iterate (pure_fn ex_square) (pure_fn ex_two_x) 1 j)"
  proof
    fix j :: nat assume "j \<in> {1..nat 1}"
    then have "j = 1" by auto
    then show "misses_tol (pure_fn ex_square) (1 / 8)
      (spec_iterate (pure_fn ex_square) (pure_fn ex_two_x) 1 j)" using miss by simp
  qed
  have z1: "spec_iterate (pure_fn ex_square) (pure_fn ex_two_minus) 1 1 = Some 2"
    by (simp add: spec_simps run_simps ex_two_minus_def)
  have zmiss: "misses_tol (pure_fn ex_square) (1 / 8)
      (spec_iterate (pure_fn ex_square) (pure_fn ex_two_minus) 1 1)"
    unfolding z1 by (simp add: spec_simps run_simps)
  have zq: "\<forall>j\<in>{1..1::nat}. misses_tol (pure_fn ex_square) (1 / 8)
      (spec_iterate (pure_fn ex_square) (pure_fn ex_two_minus) 1 j)"
  proof
    fix j :: nat assume "j \<in> {1..1}"
    then have "j = 1" by auto
    then show "misses_tol (pure_fn ex_square) (1 / 8)
      (spec_iterate (pure_fn ex_square) (pure_fn ex_two_minus) 1 j)" using zmiss by simp
  qed
  have zf: "pure_fn ex_square 2 = Inr 2" by (simp add: run_simps)
  have zd: "pure_fn ex_two_minus 2 = Inr 0" by (simp add: pure_fn_def ex_two_minus_def)
  have zi: "(1::nat) < nat 2" by simp
  have r2: "fst (newton_raphson (pure_fn ex_square) (pure_fn ex_two_x) 1 (1 / 8) 2 []) = Inr (17 / 12)"
    using newton_raphson_first_converged_iterate
        [OF e m2, of 2 "pure_fn ex_square" "pure_fn ex_two_x" 1 "17 / 12" "[]", THEN conjunct1]
      s2 hit q2 by simp
  have r1: "fst (newton_raphson (pure_fn ex_square) (pure_fn ex_two_x) 1 (1 / 8) 1 []) =
     Inl (ConvergenceError (newton_message 1))"
    using newton_raphson_first_converged_iterate
        [OF e m1, of _ "pure_fn ex_square" "pure_fn ex_two_x" 1 _ "[]", THEN conjunct2, THEN conjunct1]
      q1 by blast
  have r0: "fst (newton_raphson (pure_fn ex_square) (pure_fn ex_two_minus) 1 (1 / 8) 2 []) =
     Inl ZeroDivisionError"
    using newton_raphson_first_converged_iterate
        [OF e m2, of _ "pure_fn ex_square" "pure_fn ex_two_minus" 1 _ "[]" 1 2 2,
         THEN conjunct2, THEN conjunct2]
      zi z1 zq zf zd by blast
  show ?thesis using e s2 hit miss r2 r1 z1 zmiss zf zd r0 by simp
qed

text \<open>
  C4. When \<open>f\<close> returns the numbers \<open>a\<close> and \<open>b\<close> at the two endpoints, \<open>bisection\<close>
  raises \<open>ValueError\<close> naming both endpoints, having evaluated \<open>f\<close> at the two endpoints and
  nothing else, if and only if \<open>(a < 0) = (b < 0)\<close>; zero counts as not negative. Otherwise it
  enters the loop.
\<close>

theorem bisection_entry_sign_test:
  assumes "f x_0 = Inr a" and "f x_1 = Inr b"
  shows "(bisection f x_0 x_1 eps max_its lg =
            (Inl (ValueError x_0 x_1), lg @ [Eval_f x_0, Eval_f x_1])
          \<longleftrightarrow> (a < 0) = (b < 0)) \<and>
         ((a < 0) \<noteq> (b < 0) \<longrightarrow>
            bisection f x_0 x_1 eps max_its lg =
              bnd (bisection_loop f eps (nat max_its) (x_0, x_1))
                (\<lambda>r. case r of
                   Some x \<Rightarrow> ret x
                 | None \<Rightarrow> throw (ConvergenceError (bisection_message max_its)))
                (lg @ [Eval_f x_0, Eval_f x_1]))"
  using bisection_entry [OF assms, of eps max_its lg]
    bisection_iterating_not_entry_failure
      [of f eps "nat max_its" "(x_0, x_1)" "bisection_message max_its" "lg @ [Eval_f x_0, Eval_f x_1]" x_0 x_1]
  by (cases "(a < 0) = (b < 0)") simp_all

theorem bisection_entry_sign_test_witness:
  "pure_fn ex_line 3 = Inr 1 \<and> pure_fn ex_line 5 = Inr 3 \<and> ((1::real) < 0) = ((3::real) < 0) \<and>
   bisection (pure_fn ex_line) 3 5 (1 / 4) 20 [] = (Inl (ValueError 3 5), [Eval_f 3, Eval_f 5]) \<and>
   pure_fn ex_line 2 = Inr 0 \<and> pure_fn ex_line 1 = Inr (- 1) \<and> ((0::real) < 0) \<noteq> ((- 1::real) < 0) \<and>
   bisection (pure_fn ex_line) 2 1 (1 / 4) 20 [] \<noteq> (Inl (ValueError 2 1), [Eval_f 2, Eval_f 1])"
proof -
  have a: "pure_fn ex_line 3 = Inr 1" by (simp add: run_simps)
  have b: "pure_fn ex_line 5 = Inr 3" by (simp add: run_simps)
  have c: "pure_fn ex_line 2 = Inr 0" by (simp add: run_simps)
  have d: "pure_fn ex_line 1 = Inr (- 1)" by (simp add: run_simps)
  have same: "bisection (pure_fn ex_line) 3 5 (1 / 4) 20 [] =
      (Inl (ValueError 3 5), [Eval_f 3, Eval_f 5])"
    using bisection_entry_sign_test [OF a b, of "1 / 4" 20 "[]", THEN conjunct1] by simp
  have differ: "bisection (pure_fn ex_line) 2 1 (1 / 4) 20 [] \<noteq>
      (Inl (ValueError 2 1), [Eval_f 2, Eval_f 1])"
    using bisection_entry_sign_test [OF c d, of "1 / 4" 20 "[]", THEN conjunct1] by simp
  show ?thesis using a b c d same differ by simp
qed

text \<open>
  C5. When the initial bracket passes the entry sign test, the bracket at the start of every
  iteration has endpoints in opposite sign classes, and the update rule keeps this: the new
  bracket is again opposite; it keeps \<open>x_0\<close> and moves \<open>x_1\<close> to the midpoint when the midpoint
  is in the class opposite to \<open>x_0\<close>, and moves \<open>x_0\<close> to the midpoint otherwise. (Lemma
  \<open>bisection_loop_at\<close> shows that the loop passes through the brackets of \<open>bisection_at\<close>.)
\<close>

theorem bisection_bracket_invariant:
  assumes "opposite f (x_0, x_1)"
  shows "(bisection_at f eps k (x_0, x_1) = Some br \<longrightarrow> opposite f br) \<and>
         (bisection_at f eps k (x_0, x_1) = Some br \<and>
          fst (bisection_body f eps br lg) = Inr (Next br') \<longrightarrow>
            opposite f br' \<and>
            br' = (if opposite f (fst br, (fst br + snd br) / 2)
                   then (fst br, (fst br + snd br) / 2)
                   else ((fst br + snd br) / 2, snd br)))"
proof (intro conjI impI)
  assume "bisection_at f eps k (x_0, x_1) = Some br"
  then show "opposite f br" using assms opposite_at by blast
next
  assume h: "bisection_at f eps k (x_0, x_1) = Some br \<and>
          fst (bisection_body f eps br lg) = Inr (Next br')"
  then have o: "opposite f br" using assms opposite_at by blast
  from h have n: "fst (bisection_body f eps br lg) = Inr (Next br')" by blast
  show "opposite f br'" using o n by (rule opposite_step)
  obtain a b where br: "br = (a, b)" by (cases br)
  show "br' = (if opposite f (fst br, (fst br + snd br) / 2)
                   then (fst br, (fst br + snd br) / 2)
                   else ((fst br + snd br) / 2, snd br))"
    using bisection_body_update [of f a b eps lg br'] o n unfolding br by simp
qed

theorem bisection_bracket_invariant_witness:
  "opposite (pure_fn ex_line) (0, 6) \<and>
   bisection_at (pure_fn ex_line) (1 / 4) 1 (0, 6) = Some (0, 3) \<and>
   opposite (pure_fn ex_line) (0, 3) \<and>
   fst (bisection_body (pure_fn ex_line) (1 / 4) (0, 3) []) = Inr (Next (3 / 2, 3)) \<and>
   opposite (pure_fn ex_line) (3 / 2, 3)"
proof -
  have o: "opposite (pure_fn ex_line) (0, 6)" by (simp add: opposite_def run_simps)
  have a: "bisection_at (pure_fn ex_line) (1 / 4) 1 (0, 6) = Some (0, 3)"
    by (simp add: run_simps)
  have b: "fst (bisection_body (pure_fn ex_line) (1 / 4) (0, 3) []) = Inr (Next (3 / 2, 3))"
    by (simp add: run_simps)
  note inv = bisection_bracket_invariant [OF o, of "1 / 4" 1 "(0, 3)" "[]" "(3 / 2, 3)"]
  have o1: "opposite (pure_fn ex_line) (0, 3)" using inv a by blast
  have o2: "opposite (pure_fn ex_line) (3 / 2, 3)" using inv a b by blast
  show ?thesis using o a b o1 o2 by blast
qed

text \<open>
  C6, as stated, fails: \<open>f(x) = x - 2\<close> has a zero in \<open>[0, 6]\<close> and opposite sign classes
  at the endpoints, but with \<open>eps = 1/4\<close> and a budget of one iteration \<open>bisection\<close> raises
  \<open>ConvergenceError\<close>.
\<close>

theorem bisection_budget_counterexample:
  "(ex_line 0 < 0) \<noteq> (ex_line 6 < 0) \<and> ex_line 2 = 0 \<and> (0::real) \<le> 2 \<and> (2::real) \<le> 6 \<and>
   (0::real) < 1 / 4 \<and> (0::int) < 1 \<and>
   bisection (pure_fn ex_line) 0 6 (1 / 4) 1 [] =
     (Inl (ConvergenceError ''bisection failed to converge after1 attempts.''),
      [Eval_f 0, Eval_f 6, Eval_f 3, Eval_f 3, Eval_f 0])"
  by (simp add: run_simps)

text \<open>
  C6, amended. For a handle that always returns a number, endpoints in opposite sign classes,
  positive \<open>eps\<close> and a positive budget: \<open>bisection\<close> returns the first midpoint \<open>r\<close> of its
  brackets with \<open>abs(f(r)) < eps\<close>, provided one occurs within \<open>max_its\<close> iterations; if none
  of the first \<open>max_its\<close> midpoints meets the tolerance, it raises \<open>ConvergenceError\<close> with
  the message that carries \<open>max_its\<close>.
\<close>

theorem bisection_returns_first_midpoint_within_tolerance:
  assumes "0 < eps" and "0 < max_its" and "(g x_0 < 0) \<noteq> (g x_1 < 0)"
  shows "(k < nat max_its \<and> \<bar>g (spec_midpoint g (x_0, x_1) k)\<bar> < eps \<and>
          (\<forall>j\<in>{..<k}. \<not> \<bar>g (spec_midpoint g (x_0, x_1) j)\<bar> < eps) \<longrightarrow>
            fst (bisection (pure_fn g) x_0 x_1 eps max_its lg) =
              Inr (spec_midpoint g (x_0, x_1) k)) \<and>
         ((\<forall>j\<in>{..<nat max_its}. \<not> \<bar>g (spec_midpoint g (x_0, x_1) j)\<bar> < eps) \<longrightarrow>
            fst (bisection (pure_fn g) x_0 x_1 eps max_its lg) =
              Inl (ConvergenceError (bisection_message max_its)))"
proof -
  let ?lg = "lg @ [Eval_f x_0, Eval_f x_1]"
  let ?loop = "bisection_loop (pure_fn g) eps (nat max_its) (x_0, x_1) ?lg"
  have e: "bisection (pure_fn g) x_0 x_1 eps max_its lg =
      bnd (bisection_loop (pure_fn g) eps (nat max_its) (x_0, x_1))
        (\<lambda>r. case r of
           Some x \<Rightarrow> ret x
         | None \<Rightarrow> throw (ConvergenceError (bisection_message max_its))) ?lg"
    using bisection_entry [of "pure_fn g" x_0 "g x_0" x_1 "g x_1" eps max_its lg] assms(3)
    by (simp add: pure_fn_def)
  show ?thesis
  proof (intro conjI impI)
    assume h: "k < nat max_its \<and> \<bar>g (spec_midpoint g (x_0, x_1) k)\<bar> < eps \<and>
          (\<forall>j\<in>{..<k}. \<not> \<bar>g (spec_midpoint g (x_0, x_1) j)\<bar> < eps)"
    then have "fst ?loop = Inr (Some (spec_midpoint g (x_0, x_1) k))"
      by (intro bisection_loop_pure_hit) simp_all
    then show "fst (bisection (pure_fn g) x_0 x_1 eps max_its lg) =
        Inr (spec_midpoint g (x_0, x_1) k)"
      unfolding e by (cases ?loop) (simp add: bnd_def ret_def)
  next
    assume "\<forall>j\<in>{..<nat max_its}. \<not> \<bar>g (spec_midpoint g (x_0, x_1) j)\<bar> < eps"
    then have "fst ?loop = Inr None" by (rule bisection_loop_pure_miss)
    then show "fst (bisection (pure_fn g) x_0 x_1 eps max_its lg) =
        Inl (ConvergenceError (bisection_message max_its))"
      unfolding e by (cases ?loop) (simp add: bnd_def throw_def)
  qed
qed

theorem bisection_returns_first_midpoint_within_tolerance_witness:
  "(0::real) < 1 / 2 \<and> (0::int) < 3 \<and> (ex_line 0 < 0) \<noteq> (ex_line 6 < 0) \<and>
   (2::nat) < nat 3 \<and> spec_midpoint ex_line (0, 6) 2 = 9 / 4 \<and>
   \<bar>ex_line (9 / 4)\<bar> < 1 / 2 \<and>
   \<not> \<bar>ex_line (spec_midpoint ex_line (0, 6) 0)\<bar> < 1 / 2 \<and>
   \<not> \<bar>ex_line (spec_midpoint ex_line (0, 6) 1)\<bar> < 1 / 2 \<and>
   fst (bisection (pure_fn ex_line) 0 6 (1 / 2) 3 []) = Inr (9 / 4) \<and>
   (0::int) < 1 \<and>
   fst (bisection (pure_fn ex_line) 0 6 (1 / 2) 1 []) =
     Inl (ConvergenceError (bisection_message 1))"
proof -
  have e: "(0::real) < 1 / 2" by simp
  have m3: "(0::int) < 3" by simp
  have m1: "(0::int) < 1" by simp
  have s: "(ex_line 0 < 0) \<noteq> (ex_line 6 < 0)" by (simp add: ex_line_def)
  have k: "(2::nat) < nat 3" by simp
  have p0: "spec_midpoint ex_line (0, 6) 0 = 3" by (simp add: spec_midpoint_def)
  have p1: "spec_midpoint ex_line (0, 6) 1 = 3 / 2"
    by (simp add: spec_midpoint_def ex_line_def)
  have p2: "spec_midpoint ex_line (0, 6) 2 = 9 / 4"
    by (simp add: spec_midpoint_def ex_line_def numeral_2_eq_2)
  have h2: "\<bar>ex_line (9 / 4)\<bar> < 1 / 2" by (simp add: ex_line_def)
  have n0: "\<not> \<bar>ex_line (spec_midpoint ex_line (0, 6) 0)\<bar> < 1 / 2"
    unfolding p0 by (simp add: ex_line_def)
  have n1: "\<not> \<bar>ex_line (spec_midpoint ex_line (0, 6) 1)\<bar> < 1 / 2"
    unfolding p1 by (simp add: ex_line_def)
  have q2: "\<forall>j\<in>{..<2::nat}. \<not> \<bar>ex_line (spec_midpoint ex_line (0, 6) j)\<bar> < 1 / 2"
  proof
    fix j :: nat assume "j \<in> {..<2}"
    then have "j = 0 \<or> j = 1" by auto
    then show "\<not> \<bar>ex_line (spec_midpoint ex_line (0, 6) j)\<bar> < 1 / 2" using n0 n1 by blast
  qed
  have q1: "\<forall>j\<in>{..<nat 1}. \<not> \<bar>ex_line (spec_midpoint ex_line (0, 6) j)\<bar> < 1 / 2"
  proof
    fix j :: nat assume "j \<in> {..<nat 1}"
    then have "j = 0" by auto
    then show "\<not> \<bar>ex_line (spec_midpoint ex_line (0, 6) j)\<bar> < 1 / 2" using n0 by blast
  qed
  have r3: "fst (bisection (pure_fn ex_line) 0 6 (1 / 2) 3 []) = Inr (9 / 4)"
    using bisection_returns_first_midpoint_within_tolerance
        [of "1 / 2" 3 ex_line 0 6 2 "[]", OF e m3 s, THEN conjunct1]
      k h2 q2 unfolding p2 by blast
  have r1: "fst (bisection (pure_fn ex_line) 0 6 (1 / 2) 1 []) =
     Inl (ConvergenceError (bisection_message 1))"
    using bisection_returns_first_midpoint_within_tolerance
        [of "1 / 2" 1 ex_line 0 6 _ "[]", OF e m1 s, THEN conjunct2]
      q1 by blast
  show ?thesis using e m3 s k p2 h2 n0 n1 r3 m1 r1 by blast
qed

text \<open>
  C7, as stated, fails: with a budget of one iteration that does not converge, the loop of
  \<open>bisection\<close> evaluates \<open>f\<close> three times (the midpoint twice, then \<open>x_0\<close>), and
  \<open>newton_raphson\<close> evaluates \<open>f\<close> twice and \<open>df\<close> once; both exceed \<open>2 * max_its\<close>.
\<close>

theorem evaluation_count_counterexample:
  "\<not> length (snd (bisection_loop (pure_fn ex_line) (1 / 4) (nat 1) (0, 6) [])) \<le> 2 * nat 1 \<and>
   \<not> length (snd (newton_raphson (pure_fn ex_square) (pure_fn ex_two_x) 1 (1 / 8) 1 [])) \<le> 2 * nat 1"
  by (simp add: run_simps)

text \<open>
  C7, amended. The loop of \<open>bisection\<close> evaluates \<open>f\<close> at most \<open>3 * max_its\<close> times (the
  whole call at most two more, for the entry test), and \<open>newton_raphson\<close> evaluates \<open>f\<close> and
  \<open>df\<close> at most \<open>3 * max_its\<close> times together.
\<close>

theorem evaluation_count_bound:
  "(\<exists>evs. snd (bisection_loop f eps (nat max_its) br lg) = lg @ evs \<and>
           length evs \<le> 3 * nat max_its) \<and>
   (\<exists>evs. snd (bisection f x_0 x_1 eps max_its lg) = lg @ evs \<and>
           length evs \<le> 2 + 3 * nat max_its) \<and>
   (\<exists>evs. snd (newton_raphson f df x_0 eps max_its lg) = lg @ evs \<and>
           length evs \<le> 3 * nat max_its)"
  by (intro conjI costs_appends appends_bisection_loop costs_bisection_loop
      appends_bisection costs_bisection appends_newton_raphson costs_newton_raphson)

text \<open>
  C9, as stated, fails in binary64: for the endpoints \<^verbatim>\<open>2.0**1023\<close> and \<^verbatim>\<open>1.5 * 2.0**1023\<close>
  the entry test passes for the step function, the sum of the endpoints overflows, the midpoint
  is infinity, the step function is \<open>-1\<close> there, and with \<open>eps = 2\<close> \<open>bisection\<close> returns
  infinity, which is above both endpoints.
\<close>

theorem bisection_midpoint_overflow_counterexample:
  "ex_step (Finite (2 ^ 1023)) = Inr (Finite 1) \<and>
   ex_step (Finite (3 * 2 ^ 1022)) = Inr (Finite (- 1)) \<and>
   fl_less (Finite 1) (Finite 0) \<noteq> fl_less (Finite (- 1)) (Finite 0) \<and>
   fl_add (Finite (2 ^ 1023)) (Finite (3 * 2 ^ 1022)) = PInf \<and>
   ex_step PInf = Inr (Finite (- 1)) \<and>
   fl_bisection ex_step (Finite (2 ^ 1023)) (Finite (3 * 2 ^ 1022)) (Finite 2) 1 = Inr PInf \<and>
   fl_less (Finite (2 ^ 1023)) PInf \<and> fl_less (Finite (3 * 2 ^ 1022)) PInf"
  by (simp add: fl_bisection_def fl_bisection_body_def ex_step_def fl_result_def
      overflow_threshold_def)

text \<open>
  C9, amended. For finite endpoints \<open>a\<close> and \<open>b\<close> with \<open>2 * max \<bar>a\<bar> \<bar>b\<bar>\<close> below the
  overflow bound (so that no sum of two points of the bracket overflows), whenever
  \<open>bisection\<close> returns a value, the value is finite and lies between the two original
  endpoints. (Rounding of the midpoints is not modelled.)
\<close>

theorem bisection_result_in_bracket_without_overflow:
  assumes "2 * max \<bar>a\<bar> \<bar>b\<bar> < overflow_threshold"
    and "fl_bisection f (Finite a) (Finite b) eps max_its = Inr r"
  shows "\<exists>v. r = Finite v \<and> min a b \<le> v \<and> v \<le> max a b"
proof -
  have eq: "max \<bar>min a b\<bar> \<bar>max a b\<bar> = max \<bar>a\<bar> \<bar>b\<bar>"
    by (auto simp: min_def max_def)
  have t: "2 * max \<bar>min a b\<bar> \<bar>max a b\<bar> < overflow_threshold"
    unfolding eq by (rule assms(1))
  have l: "fl_bisection_loop f eps (nat max_its) (Finite a, Finite b) = Inr (Some r)"
    using assms(2) by (rule fl_bisection_loop_of_result)
  show ?thesis
    by (rule fl_bisection_loop_nested [OF t _ _ _ _ l]) simp_all
qed

theorem bisection_result_in_bracket_without_overflow_witness:
  "2 * max \<bar>0::real\<bar> \<bar>6\<bar> < overflow_threshold \<and>
   fl_bisection (fl_fn_of ex_line) (Finite 0) (Finite 6) (Finite (1 / 2)) 3 = Inr (Finite (9 / 4)) \<and>
   min (0::real) 6 \<le> 9 / 4 \<and> (9 / 4::real) \<le> max 0 6"
proof -
  have h: "2 * max \<bar>0::real\<bar> \<bar>6\<bar> < overflow_threshold"
    by (simp add: overflow_threshold_def)
  have r: "fl_bisection (fl_fn_of ex_line) (Finite 0) (Finite 6) (Finite (1 / 2)) 3 =
      Inr (Finite (9 / 4))"
    by (simp add: fl_bisection_def fl_bisection_body_def fl_fn_of_def ex_line_def fl_result_def
        overflow_threshold_def numeral_3_eq_3)
  have "\<exists>v. Finite (9 / 4) = Finite v \<and> min (0::real) 6 \<le> v \<and> v \<le> max 0 6"
    by (rule bisection_result_in_bracket_without_overflow [OF h r])
  then have "min (0::real) 6 \<le> 9 / 4 \<and> (9 / 4::real) \<le> max 0 6"
    by (elim exE conjE) (simp only: fl.inject)
  then show ?thesis using h r by blast
qed

text \<open>
  C10. With a budget of zero, \<open>newton_raphson\<close> raises \<open>ConvergenceError\<close> at once: the log of
  evaluations is returned as it came in, so neither \<open>f\<close> nor \<open>df\<close> is evaluated, whatever
  \<open>x_0\<close> is and even when \<open>abs (f x_0) < eps\<close>.
\<close>

theorem newton_raphson_zero_budget:
  "newton_raphson f df x_0 eps 0 lg =
     (Inl (ConvergenceError ''Newton-Raphson failed to converge after0 attempts.''), lg)"
  by (simp add: newton_raphson_def bnd_def ret_def throw_def newton_message_def str_int_def digit_char_def)

end
